theory Spec2Isabelle
  imports Complex_Main
begin

section \<open>Numerical quadrature: \<^verbatim>\<open>src/lab1/calc_methods_integral.py\<close>\<close>

text \<open>
  The module defines three integrators over a common interface
  \<^verbatim>\<open>integrate(self, a: float, b: float, n: int, f: callable) -> float\<close>.

  Conventions of the embedding:
  \<^item> the program is read twice: first with a Python \<^verbatim>\<open>float\<close> as a \<^typ>\<open>real\<close>, where
    arithmetic is exact, then with a \<^verbatim>\<open>float\<close> as a binary64 number, where every
    operation rounds and may overflow;
  \<^item> a Python \<^verbatim>\<open>int\<close> is an \<^typ>\<open>int\<close>;
  \<^item> a raised exception is the left injection of a sum type;
  \<^item> a callable is a state transformer on a world state \<open>'s\<close>, so that every call
    of the integrand (and every draw of \<^verbatim>\<open>np.random.uniform\<close>) is observable in the
    state that the method returns; a pure integrand leaves the state alone;
  \<^item> \<^verbatim>\<open>range(n)\<close> is the list \<open>[0..n - 1]\<close> and \<^verbatim>\<open>range(1, n)\<close> the list
    \<open>[1..n - 1]\<close>, both empty when \<open>n\<close> is too small.
\<close>

subsection \<open>Exceptions, callables, division\<close>

datatype error = AssertionError | ValueError string | ZeroDivisionError | OverflowError

type_synonym 's callable = "real \<Rightarrow> 's \<Rightarrow> real \<times> 's"

type_synonym 's sampler = "real \<Rightarrow> real \<Rightarrow> 's \<Rightarrow> real \<times> 's"

text \<open>A side-effect free integrand \<open>g\<close>, as a callable.\<close>

definition pure_callable :: "(real \<Rightarrow> real) \<Rightarrow> 's callable" where
  "pure_callable g x s = (g x, s)"

text \<open>
  An integrand that appends every argument it is called with to a log: the world state
  is the list of the calls made so far.
\<close>

definition logging_callable :: "(real \<Rightarrow> real) \<Rightarrow> (real list) callable" where
  "logging_callable g x calls = (g x, calls @ [x])"

text \<open>\<^verbatim>\<open>x / n\<close> for a float \<open>x\<close> and an int \<open>n\<close>: Python raises on a zero divisor.\<close>

definition truediv :: "real \<Rightarrow> int \<Rightarrow> error + real" where
  "truediv x n = (if n = 0 then Inl ZeroDivisionError else Inr (x / of_int n))"

subsection \<open>RectangleMethod\<close>

record RectangleMethod =
  mode :: string

text \<open>\<^verbatim>\<open>__init__\<close>: the \<^verbatim>\<open>assert\<close> on the mode, then the field is stored.\<close>

definition RectangleMethod_init :: "string \<Rightarrow> error + RectangleMethod" where
  "RectangleMethod_init m =
     (if m \<in> set [''left'', ''right'', ''mid'', ''random'']
      then Inr \<lparr>mode = m\<rparr>
      else Inl AssertionError)"

text \<open>
  The body of \<^verbatim>\<open>for i in range(n)\<close>, over the remaining indices, with the running
  \<^verbatim>\<open>total\<close> (here \<open>tot\<close>) and the world state.
\<close>

fun rectangle_loop ::
  "'s sampler \<Rightarrow> string \<Rightarrow> 's callable \<Rightarrow> real \<Rightarrow> real \<Rightarrow> int list \<Rightarrow> real \<Rightarrow> 's \<Rightarrow> real \<times> 's"
where
  "rectangle_loop uniform m f a dx [] tot s = (tot, s)"
| "rectangle_loop uniform m f a dx (i # rest) tot s =
     (let x0 = a + of_int i * dx;
          x1 = x0 + dx;
          (xi, s1) = (if m = ''left'' then (x0, s)
                      else if m = ''right'' then (x1, s)
                      else if m = ''mid'' then ((x0 + x1) / 2, s)
                      else uniform x0 x1 s);
          (y, s2) = f xi s1
      in rectangle_loop uniform m f a dx rest (tot + y * dx) s2)"

definition RectangleMethod_integrate ::
  "'s sampler \<Rightarrow> RectangleMethod \<Rightarrow> real \<Rightarrow> real \<Rightarrow> int \<Rightarrow> 's callable \<Rightarrow> 's \<Rightarrow> (error + real) \<times> 's"
where
  "RectangleMethod_integrate uniform self a b n f s =
     (case truediv (b - a) n of
        Inl e \<Rightarrow> (Inl e, s)
      | Inr dx \<Rightarrow>
          (let (tot, s1) = rectangle_loop uniform (mode self) f a dx [0..n - 1] 0 s
           in (Inr tot, s1)))"

subsection \<open>TrapezoidalMethod\<close>

fun trapezoidal_loop ::
  "'s callable \<Rightarrow> real \<Rightarrow> real \<Rightarrow> int list \<Rightarrow> real \<Rightarrow> 's \<Rightarrow> real \<times> 's"
where
  "trapezoidal_loop f a dx [] tot s = (tot, s)"
| "trapezoidal_loop f a dx (i # rest) tot s =
     (let (y, s1) = f (a + of_int i * dx) s
      in trapezoidal_loop f a dx rest (tot + y) s1)"

definition TrapezoidalMethod_integrate ::
  "real \<Rightarrow> real \<Rightarrow> int \<Rightarrow> 's callable \<Rightarrow> 's \<Rightarrow> (error + real) \<times> 's"
where
  "TrapezoidalMethod_integrate a b n f s =
     (case truediv (b - a) n of
        Inl e \<Rightarrow> (Inl e, s)
      | Inr dx \<Rightarrow>
          (let (fa, s1) = f a s;
               (fb, s2) = f b s1;
               (tot, s3) = trapezoidal_loop f a dx [1..n - 1] (0.5 * (fa + fb)) s2
           in (Inr (tot * dx), s3)))"

subsection \<open>SimpsonMethod\<close>

fun simpson_loop ::
  "'s callable \<Rightarrow> real \<Rightarrow> real \<Rightarrow> int list \<Rightarrow> real \<Rightarrow> 's \<Rightarrow> real \<times> 's"
where
  "simpson_loop f a dx [] tot s = (tot, s)"
| "simpson_loop f a dx (i # rest) tot s =
     (let coef = (if i mod 2 \<noteq> 0 then 4 else 2);
          (y, s1) = f (a + of_int i * dx) s
      in simpson_loop f a dx rest (tot + coef * y) s1)"

definition SimpsonMethod_integrate ::
  "real \<Rightarrow> real \<Rightarrow> int \<Rightarrow> 's callable \<Rightarrow> 's \<Rightarrow> (error + real) \<times> 's"
where
  "SimpsonMethod_integrate a b n f s =
     (if n mod 2 \<noteq> 0 then (Inl (ValueError ''For the Simpson method, n must be even''), s)
      else case truediv (b - a) n of
        Inl e \<Rightarrow> (Inl e, s)
      | Inr dx \<Rightarrow>
          (let (fa, s1) = f a s;
               (fb, s2) = f b s1;
               (tot, s3) = simpson_loop f a dx [1..n - 1] (fa + fb) s2
           in (Inr (tot * dx / 3), s3)))"

subsection \<open>The exact integral of a linear integrand\<close>

text \<open>
  Reference value for the exactness property of the trapezoidal rule: an antiderivative of
  \<open>x \<mapsto> p * x + q\<close>. By the fundamental theorem of calculus the integral of the linear
  function over \<open>[a, b]\<close> is the difference of its values at \<open>b\<close> and \<open>a\<close>.
\<close>

definition linear_antiderivative :: "real \<Rightarrow> real \<Rightarrow> real \<Rightarrow> real" where
  "linear_antiderivative p q x = p * x\<^sup>2 / 2 + q * x"

section \<open>The same program in binary64 arithmetic\<close>

text \<open>
  The second reading takes a Python \<^verbatim>\<open>float\<close> for what CPython makes it: an IEEE 754
  binary64 number, with round-to-nearest-even after every operation, overflow to an
  infinity, signed zeros and NaN.

  A finite value \<open>Finite s m e\<close> is \<open>(-1)\<^sup>s * m * 2\<^sup>e\<close> with the sign \<open>s\<close> (true for
  negative), the significand \<open>0 \<le> m < 2\<^sup>5\<^sup>3\<close> and the exponent \<open>-1074 \<le> e \<le> 971\<close>; a normal
  number has \<open>2\<^sup>5\<^sup>2 \<le> m\<close>, a subnormal number and the two zeros have \<open>e = -1074\<close>.
\<close>

subsection \<open>Values, rounding and the four operations\<close>

datatype f64 = Finite bool int int | Infinity bool | NaN

text \<open>The number of binary digits of a positive integer (\<^verbatim>\<open>int.bit_length\<close>).\<close>

function bit_length :: "int \<Rightarrow> int" where
  "bit_length m = (if m \<le> 0 then 0 else 1 + bit_length (m div 2))"
  by pat_completeness auto
termination
  by (relation "measure nat") auto

declare bit_length.simps [simp del]

text \<open>\<open>M / 2\<^sup>k\<close> rounded to the nearest integer, a tie going to the even one.\<close>

definition round_half_even :: "int \<Rightarrow> int \<Rightarrow> int" where
  "round_half_even M k =
     (let d = 2 ^ nat k; q = M div d; r = M mod d
      in if 2 * r < d then q
         else if d < 2 * r then q + 1
         else if even q then q else q + 1)"

text \<open>
  The binary64 value nearest to \<open>(-1)\<^sup>s * M * 2\<^sup>E\<close> for \<open>M \<ge> 0\<close>: 53 significant bits, or
  fewer below the smallest normal number; an infinity from \<open>2\<^sup>1\<^sup>0\<^sup>2\<^sup>4\<close> on.
\<close>

definition f64_round :: "bool \<Rightarrow> int \<Rightarrow> int \<Rightarrow> f64" where
  "f64_round s M E =
     (if M = 0 then Finite s 0 (- 1074)
      else let e = max (E + bit_length M - 53) (- 1074);
               m = (if e \<le> E then M * 2 ^ nat (E - e) else round_half_even M (e - E))
           in if m = 2 ^ 53 then (if 971 < e + 1 then Infinity s else Finite s (2 ^ 52) (e + 1))
              else if 971 < e then Infinity s
              else Finite s m e)"

fun f64_neg :: "f64 \<Rightarrow> f64" where
  "f64_neg (Finite s m e) = Finite (\<not> s) m e"
| "f64_neg (Infinity s) = Infinity (\<not> s)"
| "f64_neg NaN = NaN"

fun f64_add :: "f64 \<Rightarrow> f64 \<Rightarrow> f64" where
  "f64_add (Finite s1 m1 e1) (Finite s2 m2 e2) =
     (let e = min e1 e2;
          v = (if s1 then - m1 else m1) * 2 ^ nat (e1 - e)
            + (if s2 then - m2 else m2) * 2 ^ nat (e2 - e)
      in if v = 0 then Finite (s1 \<and> s2) 0 (- 1074) else f64_round (v < 0) \<bar>v\<bar> e)"
| "f64_add (Finite s1 m1 e1) (Infinity s2) = Infinity s2"
| "f64_add (Infinity s1) (Finite s2 m2 e2) = Infinity s1"
| "f64_add (Infinity s1) (Infinity s2) = (if s1 = s2 then Infinity s1 else NaN)"
| "f64_add NaN y = NaN"
| "f64_add x NaN = NaN"

definition f64_sub :: "f64 \<Rightarrow> f64 \<Rightarrow> f64" where
  "f64_sub x y = f64_add x (f64_neg y)"

fun f64_mul :: "f64 \<Rightarrow> f64 \<Rightarrow> f64" where
  "f64_mul (Finite s1 m1 e1) (Finite s2 m2 e2) = f64_round (s1 \<noteq> s2) (m1 * m2) (e1 + e2)"
| "f64_mul (Finite s1 m1 e1) (Infinity s2) = (if m1 = 0 then NaN else Infinity (s1 \<noteq> s2))"
| "f64_mul (Infinity s1) (Finite s2 m2 e2) = (if m2 = 0 then NaN else Infinity (s1 \<noteq> s2))"
| "f64_mul (Infinity s1) (Infinity s2) = Infinity (s1 \<noteq> s2)"
| "f64_mul NaN y = NaN"
| "f64_mul x NaN = NaN"

text \<open>
  Division by a value other than zero. The quotient of the significands is taken with at
  least 55 bits and a sticky last bit for a remainder, which rounds as the exact quotient.
\<close>

fun f64_div :: "f64 \<Rightarrow> f64 \<Rightarrow> f64" where
  "f64_div (Finite s1 m1 e1) (Finite s2 m2 e2) =
     (let k = max 0 (bit_length m2 - bit_length m1 + 55);
          n = m1 * 2 ^ nat k;
          q = n div m2;
          r = n mod m2
      in f64_round (s1 \<noteq> s2) (2 * q + (if r = 0 then 0 else 1)) (e1 - e2 - k - 1))"
| "f64_div (Finite s1 m1 e1) (Infinity s2) = Finite (s1 \<noteq> s2) 0 (- 1074)"
| "f64_div (Infinity s1) (Finite s2 m2 e2) = Infinity (s1 \<noteq> s2)"
| "f64_div (Infinity s1) (Infinity s2) = NaN"
| "f64_div NaN y = NaN"
| "f64_div x NaN = NaN"

text \<open>
  The equations for two finite operands compute with the significands; they are applied
  on request only.
\<close>

declare f64_add.simps(1) [simp del] f64_mul.simps(1) [simp del] f64_div.simps(1) [simp del]

fun is_zero :: "f64 \<Rightarrow> bool" where
  "is_zero (Finite s m e) = (m = 0)"
| "is_zero (Infinity s) = False"
| "is_zero NaN = False"

fun is_finite :: "f64 \<Rightarrow> bool" where
  "is_finite (Finite s m e) = True"
| "is_finite (Infinity s) = False"
| "is_finite NaN = False"

text \<open>The comparison \<^verbatim>\<open>x < y\<close>.\<close>

fun f64_less :: "f64 \<Rightarrow> f64 \<Rightarrow> bool" where
  "f64_less (Finite s1 m1 e1) (Finite s2 m2 e2) =
     (let e = min e1 e2
      in (if s1 then - m1 else m1) * 2 ^ nat (e1 - e)
           < (if s2 then - m2 else m2) * 2 ^ nat (e2 - e))"
| "f64_less (Finite s1 m1 e1) (Infinity s2) = (\<not> s2)"
| "f64_less (Infinity s1) (Finite s2 m2 e2) = s1"
| "f64_less (Infinity s1) (Infinity s2) = (s1 \<and> \<not> s2)"
| "f64_less NaN y = False"
| "f64_less x NaN = False"

declare f64_less.simps(1) [simp del]

subsection \<open>Python's mixed arithmetic\<close>

text \<open>
  An \<^verbatim>\<open>int\<close> operand of a float operation is first converted, correctly rounded;
  CPython raises \<^verbatim>\<open>OverflowError\<close> when the rounded value would not be finite, which is
  from \<open>2\<^sup>1\<^sup>0\<^sup>2\<^sup>4 - 2\<^sup>9\<^sup>7\<^sup>0\<close> on.
\<close>

definition to_f64 :: "int \<Rightarrow> f64" where
  "to_f64 n = f64_round (n < 0) \<bar>n\<bar> 0"

definition float_of_int :: "int \<Rightarrow> error + f64" where
  "float_of_int n =
     (if 2 ^ 1024 - 2 ^ 970 \<le> \<bar>n\<bar> then Inl OverflowError else Inr (to_f64 n))"

text \<open>\<^verbatim>\<open>x / n\<close> for a float \<open>x\<close> and an int \<open>n\<close>.\<close>

definition truediv_f64 :: "f64 \<Rightarrow> int \<Rightarrow> error + f64" where
  "truediv_f64 x n =
     (case float_of_int n of
        Inl e \<Rightarrow> Inl e
      | Inr y \<Rightarrow> if is_zero y then Inl ZeroDivisionError else Inr (f64_div x y))"

text \<open>The literals \<^verbatim>\<open>0.0\<close> and \<^verbatim>\<open>0.5\<close>.\<close>

definition f64_zero :: f64 where
  "f64_zero = Finite False 0 (- 1074)"

definition f64_half :: f64 where
  "f64_half = Finite False (2 ^ 52) (- 53)"

subsection \<open>The three methods\<close>

text \<open>
  The definitions repeat those of the first reading with the binary64 operations. The
  loop indices and the literals 2, 3 and 4 are converted by \<open>to_f64\<close>: their conversion
  cannot fail, the literals being small and the indices lying below \<open>n\<close>, whose own
  conversion in the computation of \<open>dx\<close> has succeeded before the loop starts.
\<close>

type_synonym 's callable_f64 = "f64 \<Rightarrow> 's \<Rightarrow> f64 \<times> 's"

type_synonym 's sampler_f64 = "f64 \<Rightarrow> f64 \<Rightarrow> 's \<Rightarrow> f64 \<times> 's"

definition pure_callable_f64 :: "(f64 \<Rightarrow> f64) \<Rightarrow> 's callable_f64" where
  "pure_callable_f64 g x s = (g x, s)"

fun rectangle_loop_f64 ::
  "'s sampler_f64 \<Rightarrow> string \<Rightarrow> 's callable_f64 \<Rightarrow> f64 \<Rightarrow> f64 \<Rightarrow> int list \<Rightarrow> f64 \<Rightarrow> 's \<Rightarrow> f64 \<times> 's"
where
  "rectangle_loop_f64 uniform m f a dx [] tot s = (tot, s)"
| "rectangle_loop_f64 uniform m f a dx (i # rest) tot s =
     (let x0 = f64_add a (f64_mul (to_f64 i) dx);
          x1 = f64_add x0 dx;
          (xi, s1) = (if m = ''left'' then (x0, s)
                      else if m = ''right'' then (x1, s)
                      else if m = ''mid'' then (f64_div (f64_add x0 x1) (to_f64 2), s)
                      else uniform x0 x1 s);
          (y, s2) = f xi s1
      in rectangle_loop_f64 uniform m f a dx rest (f64_add tot (f64_mul y dx)) s2)"

definition RectangleMethod_integrate_f64 ::
  "'s sampler_f64 \<Rightarrow> RectangleMethod \<Rightarrow> f64 \<Rightarrow> f64 \<Rightarrow> int \<Rightarrow> 's callable_f64 \<Rightarrow> 's
     \<Rightarrow> (error + f64) \<times> 's"
where
  "RectangleMethod_integrate_f64 uniform self a b n f s =
     (case truediv_f64 (f64_sub b a) n of
        Inl e \<Rightarrow> (Inl e, s)
      | Inr dx \<Rightarrow>
          (let (tot, s1) = rectangle_loop_f64 uniform (mode self) f a dx [0..n - 1] f64_zero s
           in (Inr tot, s1)))"

fun trapezoidal_loop_f64 ::
  "'s callable_f64 \<Rightarrow> f64 \<Rightarrow> f64 \<Rightarrow> int list \<Rightarrow> f64 \<Rightarrow> 's \<Rightarrow> f64 \<times> 's"
where
  "trapezoidal_loop_f64 f a dx [] tot s = (tot, s)"
| "trapezoidal_loop_f64 f a dx (i # rest) tot s =
     (let (y, s1) = f (f64_add a (f64_mul (to_f64 i) dx)) s
      in trapezoidal_loop_f64 f a dx rest (f64_add tot y) s1)"

definition TrapezoidalMethod_integrate_f64 ::
  "f64 \<Rightarrow> f64 \<Rightarrow> int \<Rightarrow> 's callable_f64 \<Rightarrow> 's \<Rightarrow> (error + f64) \<times> 's"
where
  "TrapezoidalMethod_integrate_f64 a b n f s =
     (case truediv_f64 (f64_sub b a) n of
        Inl e \<Rightarrow> (Inl e, s)
      | Inr dx \<Rightarrow>
          (let (fa, s1) = f a s;
               (fb, s2) = f b s1;
               (tot, s3) = trapezoidal_loop_f64 f a dx [1..n - 1]
                             (f64_mul f64_half (f64_add fa fb)) s2
           in (Inr (f64_mul tot dx), s3)))"

fun simpson_loop_f64 ::
  "'s callable_f64 \<Rightarrow> f64 \<Rightarrow> f64 \<Rightarrow> int list \<Rightarrow> f64 \<Rightarrow> 's \<Rightarrow> f64 \<times> 's"
where
  "simpson_loop_f64 f a dx [] tot s = (tot, s)"
| "simpson_loop_f64 f a dx (i # rest) tot s =
     (let coef = (if i mod 2 \<noteq> 0 then 4 else 2);
          (y, s1) = f (f64_add a (f64_mul (to_f64 i) dx)) s
      in simpson_loop_f64 f a dx rest (f64_add tot (f64_mul (to_f64 coef) y)) s1)"

definition SimpsonMethod_integrate_f64 ::
  "f64 \<Rightarrow> f64 \<Rightarrow> int \<Rightarrow> 's callable_f64 \<Rightarrow> 's \<Rightarrow> (error + f64) \<times> 's"
where
  "SimpsonMethod_integrate_f64 a b n f s =
     (if n mod 2 \<noteq> 0 then (Inl (ValueError ''For the Simpson method, n must be even''), s)
      else case truediv_f64 (f64_sub b a) n of
        Inl e \<Rightarrow> (Inl e, s)
      | Inr dx \<Rightarrow>
          (let (fa, s1) = f a s;
               (fb, s2) = f b s1;
               (tot, s3) = simpson_loop_f64 f a dx [1..n - 1] (f64_add fa fb) s2
           in (Inr (f64_div (f64_mul tot dx) (to_f64 3)), s3)))"

text \<open>
  The evaluation point of the \<open>i\<close>-th subinterval in the modes left, right and mid, as the
  loop body of the rectangle method computes it.
\<close>

definition evaluation_point_f64 :: "string \<Rightarrow> f64 \<Rightarrow> f64 \<Rightarrow> int \<Rightarrow> f64" where
  "evaluation_point_f64 m a dx i =
     (let x0 = f64_add a (f64_mul (to_f64 i) dx);
          x1 = f64_add x0 dx
      in if m = ''left'' then x0
         else if m = ''right'' then x1
         else f64_div (f64_add x0 x1) (to_f64 2))"

text \<open>
  The right-endpoint sum as the specification words it, with the right end of the \<open>i\<close>-th
  subinterval taken as \<open>a + (i + 1) * dx\<close>, accumulated in the order of the indices.
\<close>

definition spec_right_sum_f64 :: "(f64 \<Rightarrow> f64) \<Rightarrow> f64 \<Rightarrow> f64 \<Rightarrow> int \<Rightarrow> f64" where
  "spec_right_sum_f64 g a dx n =
     foldl (\<lambda>tot i. f64_add tot (f64_mul (g (f64_add a (f64_mul (to_f64 (i + 1)) dx))) dx))
       f64_zero [0..n - 1]"

text \<open>A test integrand: \<^verbatim>\<open>lambda x: 1.0 if x > t else 0.0\<close>.\<close>

definition step_above :: "f64 \<Rightarrow> f64 \<Rightarrow> f64" where
  "step_above t x = (if f64_less t x then to_f64 1 else to_f64 0)"

section \<open>Closed forms of the loops for a pure integrand\<close>

lemma sum_list_upto: "(\<Sum>i\<leftarrow>[m..n]. h i) = (\<Sum>i = m..n. h i)" for h :: "int \<Rightarrow> real"
  by (simp add: sum_list_distinct_conv_sum_set)

lemma rectangle_loop_left:
  "rectangle_loop uniform ''left'' (pure_callable g) a dx xs tot s =
     (tot + (\<Sum>i\<leftarrow>xs. g (a + of_int i * dx) * dx), s)"
  by (induction xs arbitrary: tot) (simp_all add: pure_callable_def add.assoc)

lemma rectangle_loop_right:
  "rectangle_loop uniform ''right'' (pure_callable g) a dx xs tot s =
     (tot + (\<Sum>i\<leftarrow>xs. g (a + of_int i * dx + dx) * dx), s)"
  by (induction xs arbitrary: tot) (simp_all add: pure_callable_def add.assoc)

lemma rectangle_loop_mid:
  "rectangle_loop uniform ''mid'' (pure_callable g) a dx xs tot s =
     (tot + (\<Sum>i\<leftarrow>xs. g (a + of_int i * dx + dx / 2) * dx), s)"
proof (induction xs arbitrary: tot)
  case Nil
  show ?case by simp
next
  case (Cons i rest)
  have mid: "(a + of_int i * dx + (a + of_int i * dx + dx)) / 2 = a + of_int i * dx + dx / 2"
    by (simp add: field_simps)
  have "rectangle_loop uniform ''mid'' (pure_callable g) a dx (i # rest) tot s =
        rectangle_loop uniform ''mid'' (pure_callable g) a dx rest
          (tot + g (a + of_int i * dx + dx / 2) * dx) s"
    unfolding rectangle_loop.simps Let_def mid by (simp add: pure_callable_def)
  then show ?case
    by (simp add: Cons.IH add.assoc)
qed

lemma trapezoidal_loop_pure:
  "trapezoidal_loop (pure_callable g) a dx xs tot s =
     (tot + (\<Sum>i\<leftarrow>xs. g (a + of_int i * dx)), s)"
  by (induction xs arbitrary: tot) (simp_all add: pure_callable_def add.assoc)

lemma simpson_loop_pure:
  "simpson_loop (pure_callable g) a dx xs tot s =
     (tot + (\<Sum>i\<leftarrow>xs. (if i mod 2 \<noteq> 0 then 4 else 2) * g (a + of_int i * dx)), s)"
  by (induction xs arbitrary: tot) (simp_all add: pure_callable_def add.assoc)

lemma RectangleMethod_left_pure:
  "n \<noteq> 0 \<Longrightarrow> mode self = ''left'' \<Longrightarrow>
   RectangleMethod_integrate uniform self a b n (pure_callable g) s =
     (Inr (\<Sum>i = 0..n - 1. g (a + of_int i * ((b - a) / of_int n)) * ((b - a) / of_int n)), s)"
  by (simp add: RectangleMethod_integrate_def truediv_def rectangle_loop_left sum_list_upto)

lemma RectangleMethod_right_pure:
  "n \<noteq> 0 \<Longrightarrow> mode self = ''right'' \<Longrightarrow>
   RectangleMethod_integrate uniform self a b n (pure_callable g) s =
     (Inr (\<Sum>i = 0..n - 1. g (a + of_int i * ((b - a) / of_int n) + (b - a) / of_int n)
                               * ((b - a) / of_int n)), s)"
  by (simp add: RectangleMethod_integrate_def truediv_def rectangle_loop_right sum_list_upto)

lemma RectangleMethod_mid_pure:
  "n \<noteq> 0 \<Longrightarrow> mode self = ''mid'' \<Longrightarrow>
   RectangleMethod_integrate uniform self a b n (pure_callable g) s =
     (Inr (\<Sum>i = 0..n - 1. g (a + of_int i * ((b - a) / of_int n) + (b - a) / of_int n / 2)
                               * ((b - a) / of_int n)), s)"
  by (simp add: RectangleMethod_integrate_def truediv_def rectangle_loop_mid sum_list_upto)

lemma TrapezoidalMethod_pure:
  "n \<noteq> 0 \<Longrightarrow>
   TrapezoidalMethod_integrate a b n (pure_callable g) s =
     (Inr ((0.5 * (g a + g b) + (\<Sum>i = 1..n - 1. g (a + of_int i * ((b - a) / of_int n))))
             * ((b - a) / of_int n)), s)"
  by (simp add: TrapezoidalMethod_integrate_def truediv_def trapezoidal_loop_pure
      sum_list_upto pure_callable_def)

lemma SimpsonMethod_pure:
  "n \<noteq> 0 \<Longrightarrow> n mod 2 = 0 \<Longrightarrow>
   SimpsonMethod_integrate a b n (pure_callable g) s =
     (Inr ((g a + g b + (\<Sum>i = 1..n - 1. (if i mod 2 \<noteq> 0 then 4 else 2)
                                              * g (a + of_int i * ((b - a) / of_int n))))
             * ((b - a) / of_int n) / 3), s)"
  by (simp add: SimpsonMethod_integrate_def truediv_def simpson_loop_pure
      sum_list_upto pure_callable_def)

text \<open>Small index sets, for evaluating the sums at concrete partition counts.\<close>

lemma int_range_0_1: "{0..1::int} = {0, 1}"
  by auto

lemma int_range_1_1: "{1..1::int} = {1}"
  by auto

section \<open>Reversing the bounds\<close>

text \<open>
  Exchanging \<open>a\<close> and \<open>b\<close> negates the step and walks the same grid from the other end:
  the index \<open>i\<close> of the reversed run is the index \<open>n - i\<close> (or \<open>n - 1 - i\<close> for the
  subintervals) of the forward run.
\<close>

lemma sum_int_rev: "(\<Sum>i = m..n. h (m + n - i)) = (\<Sum>i = m..n. h i)" for h :: "int \<Rightarrow> real"
  by (rule sum.reindex_bij_witness[where i = "\<lambda>i. m + n - i" and j = "\<lambda>i. m + n - i"]) auto

lemma mid_reversed:
  fixes g :: "real \<Rightarrow> real"
  assumes "n \<noteq> 0"
  shows "(\<Sum>i = 0..n - 1. g (b + of_int i * ((a - b) / of_int n) + (a - b) / of_int n / 2) * ((a - b) / of_int n)) =
       - (\<Sum>i = 0..n - 1. g (a + of_int i * ((b - a) / of_int n) + (b - a) / of_int n / 2) * ((b - a) / of_int n))"
proof -
  define dx where "dx = (b - a) / of_int n"
  define H where "H i = g (a + of_int i * dx + dx / 2) * dx" for i :: int
  have neg: "(a - b) / of_int n = - dx"
    unfolding dx_def by (simp add: minus_divide_left)
  have pt: "b + of_int i * (- dx) + (- dx) / 2 = a + of_int (0 + (n - 1) - i) * dx + dx / 2" for i
    using assms unfolding dx_def by (simp add: field_simps)
  have "(\<Sum>i = 0..n - 1. g (b + of_int i * ((a - b) / of_int n) + (a - b) / of_int n / 2) * ((a - b) / of_int n)) =
        (\<Sum>i = 0..n - 1. - H (0 + (n - 1) - i))"
    unfolding neg pt H_def by simp
  also have "\<dots> = - (\<Sum>i = 0..n - 1. H (0 + (n - 1) - i))"
    by (simp only: sum_negf)
  also have "\<dots> = - (\<Sum>i = 0..n - 1. H i)"
    by (simp only: sum_int_rev)
  finally show ?thesis
    unfolding H_def dx_def .
qed

lemma left_right_reversed:
  fixes g :: "real \<Rightarrow> real"
  assumes "n \<noteq> 0"
  shows "(\<Sum>i = 0..n - 1. g (b + of_int i * ((a - b) / of_int n) + (a - b) / of_int n) * ((a - b) / of_int n)) =
       - (\<Sum>i = 0..n - 1. g (a + of_int i * ((b - a) / of_int n)) * ((b - a) / of_int n))"
proof -
  define dx where "dx = (b - a) / of_int n"
  define H where "H i = g (a + of_int i * dx) * dx" for i :: int
  have neg: "(a - b) / of_int n = - dx"
    unfolding dx_def by (simp add: minus_divide_left)
  have pt: "b + of_int i * (- dx) + (- dx) = a + of_int (0 + (n - 1) - i) * dx" for i
    using assms unfolding dx_def by (simp add: field_simps)
  have "(\<Sum>i = 0..n - 1. g (b + of_int i * ((a - b) / of_int n) + (a - b) / of_int n) * ((a - b) / of_int n)) =
        (\<Sum>i = 0..n - 1. - H (0 + (n - 1) - i))"
    unfolding neg pt H_def by simp
  also have "\<dots> = - (\<Sum>i = 0..n - 1. H (0 + (n - 1) - i))"
    by (simp only: sum_negf)
  also have "\<dots> = - (\<Sum>i = 0..n - 1. H i)"
    by (simp only: sum_int_rev)
  finally show ?thesis
    unfolding H_def dx_def .
qed

lemma inner_reversed:
  fixes g :: "real \<Rightarrow> real"
  assumes "n \<noteq> 0"
  shows "(\<Sum>i = 1..n - 1. g (b + of_int i * ((a - b) / of_int n))) =
         (\<Sum>i = 1..n - 1. g (a + of_int i * ((b - a) / of_int n)))"
proof -
  define dx where "dx = (b - a) / of_int n"
  define H where "H i = g (a + of_int i * dx)" for i :: int
  have neg: "(a - b) / of_int n = - dx"
    unfolding dx_def by (simp add: minus_divide_left)
  have pt: "b + of_int i * (- dx) = a + of_int (1 + (n - 1) - i) * dx" for i
    using assms unfolding dx_def by (simp add: field_simps)
  have "(\<Sum>i = 1..n - 1. g (b + of_int i * ((a - b) / of_int n))) = (\<Sum>i = 1..n - 1. H (1 + (n - 1) - i))"
    unfolding neg pt H_def by simp
  also have "\<dots> = (\<Sum>i = 1..n - 1. H i)"
    by (simp only: sum_int_rev)
  finally show ?thesis
    unfolding H_def dx_def .
qed

lemma simpson_inner_reversed:
  fixes g :: "real \<Rightarrow> real"
  assumes "n \<noteq> 0" and "n mod 2 = 0"
  shows "(\<Sum>i = 1..n - 1. (if i mod 2 \<noteq> 0 then 4 else 2) * g (b + of_int i * ((a - b) / of_int n))) =
         (\<Sum>i = 1..n - 1. (if i mod 2 \<noteq> 0 then 4 else 2) * g (a + of_int i * ((b - a) / of_int n)))"
proof -
  define dx where "dx = (b - a) / of_int n"
  define H where "H i = (if i mod 2 \<noteq> 0 then 4 else 2) * g (a + of_int i * dx)" for i :: int
  have neg: "(a - b) / of_int n = - dx"
    unfolding dx_def by (simp add: minus_divide_left)
  have pt: "b + of_int i * (- dx) = a + of_int (1 + (n - 1) - i) * dx" for i
    using assms(1) unfolding dx_def by (simp add: field_simps)
  have par: "(1 + (n - 1) - i) mod 2 \<noteq> 0 \<longleftrightarrow> i mod 2 \<noteq> 0" for i
    using assms(2) by presburger
  have "(\<Sum>i = 1..n - 1. (if i mod 2 \<noteq> 0 then 4 else 2) * g (b + of_int i * ((a - b) / of_int n))) =
        (\<Sum>i = 1..n - 1. H (1 + (n - 1) - i))"
    unfolding neg pt H_def par by simp
  also have "\<dots> = (\<Sum>i = 1..n - 1. H i)"
    by (simp only: sum_int_rev)
  finally show ?thesis
    unfolding H_def dx_def .
qed

lemma step_reversed: "(a - b) / of_int n = - ((b - a) / of_int n)" for a b :: real
  by (simp add: minus_divide_left)

lemma rectangle_mid_reversed:
  assumes "n \<noteq> 0" and "mode self = ''mid''"
  shows "\<exists>v. RectangleMethod_integrate uniform self a b n (pure_callable g) s = (Inr v, s)
           \<and> RectangleMethod_integrate uniform self b a n (pure_callable g) s = (Inr (- v), s)"
proof -
  define S where
    "S = (\<Sum>i = 0..n - 1. g (a + of_int i * ((b - a) / of_int n) + (b - a) / of_int n / 2)
                              * ((b - a) / of_int n))"
  have fwd: "RectangleMethod_integrate uniform self a b n (pure_callable g) s = (Inr S, s)"
    unfolding S_def by (rule RectangleMethod_mid_pure[OF assms])
  have bwd: "RectangleMethod_integrate uniform self b a n (pure_callable g) s = (Inr (- S), s)"
    unfolding S_def
    using RectangleMethod_mid_pure[OF assms, where a = b and b = a and g = g and s = s]
    unfolding mid_reversed[OF assms(1), where a = a and b = b and g = g] .
  show ?thesis
    unfolding fwd bwd by simp
qed

lemma rectangle_left_right_reversed:
  assumes "n \<noteq> 0" and "mode self = ''left''" and "mode other = ''right''"
  shows "\<exists>v. RectangleMethod_integrate uniform self a b n (pure_callable g) s = (Inr v, s)
           \<and> RectangleMethod_integrate uniform other b a n (pure_callable g) s = (Inr (- v), s)"
proof -
  define S where
    "S = (\<Sum>i = 0..n - 1. g (a + of_int i * ((b - a) / of_int n)) * ((b - a) / of_int n))"
  have fwd: "RectangleMethod_integrate uniform self a b n (pure_callable g) s = (Inr S, s)"
    unfolding S_def by (rule RectangleMethod_left_pure[OF assms(1,2)])
  have bwd: "RectangleMethod_integrate uniform other b a n (pure_callable g) s = (Inr (- S), s)"
    unfolding S_def
    using RectangleMethod_right_pure[OF assms(1,3), where a = b and b = a and g = g and s = s]
    unfolding left_right_reversed[OF assms(1), where a = a and b = b and g = g] .
  show ?thesis
    unfolding fwd bwd by simp
qed

lemma trapezoidal_reversed:
  assumes "n \<noteq> 0"
  shows "\<exists>v. TrapezoidalMethod_integrate a b n (pure_callable g) s = (Inr v, s)
           \<and> TrapezoidalMethod_integrate b a n (pure_callable g) s = (Inr (- v), s)"
proof -
  define dx where "dx = (b - a) / of_int n"
  define S where "S = (\<Sum>i = 1..n - 1. g (a + of_int i * ((b - a) / of_int n)))"
  have fwd: "TrapezoidalMethod_integrate a b n (pure_callable g) s =
               (Inr ((0.5 * (g a + g b) + S) * dx), s)"
    unfolding S_def dx_def by (rule TrapezoidalMethod_pure[OF assms])
  have bwd: "TrapezoidalMethod_integrate b a n (pure_callable g) s =
               (Inr ((0.5 * (g b + g a) + S) * (- dx)), s)"
    unfolding S_def dx_def
    using TrapezoidalMethod_pure[OF assms, where a = b and b = a and g = g and s = s]
    unfolding inner_reversed[OF assms, where a = a and b = b and g = g]
    unfolding step_reversed[of a b n] .
  show ?thesis
    unfolding fwd bwd by (simp add: add.commute)
qed

lemma simpson_reversed:
  assumes "n \<noteq> 0" and "n mod 2 = 0"
  shows "\<exists>v. SimpsonMethod_integrate a b n (pure_callable g) s = (Inr v, s)
           \<and> SimpsonMethod_integrate b a n (pure_callable g) s = (Inr (- v), s)"
proof -
  define dx where "dx = (b - a) / of_int n"
  define S where
    "S = (\<Sum>i = 1..n - 1. (if i mod 2 \<noteq> 0 then 4 else 2) * g (a + of_int i * ((b - a) / of_int n)))"
  have fwd: "SimpsonMethod_integrate a b n (pure_callable g) s =
               (Inr ((g a + g b + S) * dx / 3), s)"
    unfolding S_def dx_def by (rule SimpsonMethod_pure[OF assms])
  have bwd: "SimpsonMethod_integrate b a n (pure_callable g) s =
               (Inr ((g b + g a + S) * (- dx) / 3), s)"
    unfolding S_def dx_def
    using SimpsonMethod_pure[OF assms, where a = b and b = a and g = g and s = s]
    unfolding simpson_inner_reversed[OF assms, where a = a and b = b and g = g]
    unfolding step_reversed[of a b n] .
  show ?thesis
    unfolding fwd bwd
    by (rule exI[of _ "(g a + g b + S) * dx / 3"]) (simp add: add.commute)
qed

section \<open>A linear integrand under the trapezoidal rule\<close>

lemma linear_inner_sum:
  fixes p q a dx :: real
  assumes "0 \<le> m"
  shows "(\<Sum>i = 1..m. p * (a + of_int i * dx) + q) =
         of_int m * (p * a + q) + p * dx * (of_int m * (of_int m + 1) / 2)"
  using assms
proof (induction m rule: int_ge_induct)
  case base
  show ?case by simp
next
  case (step i)
  have "{1..i + 1} = insert (i + 1) {1..i}"
    using step.hyps by auto
  then have "(\<Sum>k = 1..i + 1. p * (a + of_int k * dx) + q) =
             (p * (a + of_int (i + 1) * dx) + q) + (\<Sum>k = 1..i. p * (a + of_int k * dx) + q)"
    by simp
  then show ?case
    unfolding step.IH by (simp add: algebra_simps)
qed

lemma trapezoidal_linear:
  fixes p q a b :: real
  assumes "1 \<le> n"
  shows "(0.5 * ((p * a + q) + (p * b + q))
            + (\<Sum>i = 1..n - 1. p * (a + of_int i * ((b - a) / of_int n)) + q))
           * ((b - a) / of_int n) =
         (p * b\<^sup>2 / 2 + q * b) - (p * a\<^sup>2 / 2 + q * a)"
proof -
  have n0: "real_of_int n \<noteq> 0" using assms by simp
  have m: "0 \<le> n - 1" using assms by simp
  show ?thesis
    unfolding linear_inner_sum[OF m] using n0
    by (simp add: field_simps power2_eq_square)
qed

lemma linear_antiderivative_deriv:
  "(linear_antiderivative p q has_real_derivative p * x + q) (at x)"
  unfolding linear_antiderivative_def
  by (auto intro!: derivative_eq_intros)

section \<open>The quadrature formulas\<close>

text \<open>
  C2. For a pure integrand \<open>g\<close>, \<open>n \<ge> 1\<close> and \<open>dx = (b - a) / n\<close>,
  \<^verbatim>\<open>TrapezoidalMethod.integrate(a, b, n, g)\<close> returns
  \<open>(0.5 * (g a + g b) + (\<Sum>i = 1..n - 1. g (a + i * dx))) * dx\<close>.
\<close>

theorem trapezoidal_integrate_formula:
  assumes "1 \<le> n" and "dx = (b - a) / of_int n"
  shows "TrapezoidalMethod_integrate a b n (pure_callable g) s =
           (Inr ((0.5 * (g a + g b) + (\<Sum>i = 1..n - 1. g (a + of_int i * dx))) * dx), s)"
proof -
  have n0: "n \<noteq> 0" using assms(1) by simp
  show ?thesis
    unfolding assms(2) by (rule TrapezoidalMethod_pure[OF n0])
qed

theorem trapezoidal_integrate_formula_witness:
  "TrapezoidalMethod_integrate 0 1 2 (pure_callable (\<lambda>x. x\<^sup>2)) () = (Inr (3 / 8), ())"
  using trapezoidal_integrate_formula[where n = 2 and dx = "1 / 2" and a = 0 and b = 1
      and g = "\<lambda>x. x\<^sup>2" and s = "()"]
  by (simp add: int_range_1_1 power2_eq_square)

text \<open>
  C3. For a pure integrand \<open>g\<close>, an even \<open>n \<ge> 2\<close> and \<open>dx = (b - a) / n\<close>,
  \<^verbatim>\<open>SimpsonMethod.integrate(a, b, n, g)\<close> returns
  \<open>(g a + g b + (\<Sum>i = 1..n - 1. coef i * g (a + i * dx))) * dx / 3\<close>, where \<open>coef i\<close> is
  4 for odd \<open>i\<close> and 2 for even \<open>i\<close>.
\<close>

theorem simpson_integrate_formula:
  assumes "2 \<le> n" and "even n" and "dx = (b - a) / of_int n"
  shows "SimpsonMethod_integrate a b n (pure_callable g) s =
           (Inr ((g a + g b + (\<Sum>i = 1..n - 1. (if odd i then 4 else 2) * g (a + of_int i * dx)))
                   * dx / 3), s)"
proof -
  have n0: "n \<noteq> 0" using assms(1) by simp
  have ev: "n mod 2 = 0" using assms(2) by presburger
  have coef: "(if odd i then 4 else 2) = (if i mod 2 \<noteq> 0 then 4 else (2::real))" for i :: int
    by (simp add: even_iff_mod_2_eq_zero)
  show ?thesis
    unfolding assms(3) coef by (rule SimpsonMethod_pure[OF n0 ev])
qed

theorem simpson_integrate_formula_witness:
  "SimpsonMethod_integrate 0 1 2 (pure_callable (\<lambda>x. x ^ 3)) () = (Inr (1 / 4), ())"
  using simpson_integrate_formula[where n = 2 and dx = "1 / 2" and a = 0 and b = 1
      and g = "\<lambda>x. x ^ 3" and s = "()"]
  by (simp add: int_range_1_1 power3_eq_cube)

section \<open>Error paths\<close>

text \<open>
  The model observes the calls of the integrand: after a successful Simpson run with
  \<open>n = 2\<close> the log holds the three evaluation points, in the order of the calls.
\<close>

lemma simpson_logged_calls:
  "SimpsonMethod_integrate 0 1 2 (logging_callable (\<lambda>x. x)) [] = (Inr (1 / 2), [0, 1, 1 / 2])"
  by (simp add: SimpsonMethod_integrate_def truediv_def logging_callable_def upto.simps)

text \<open>
  C4, as stated: for odd \<open>n\<close> the error of \<^verbatim>\<open>SimpsonMethod.integrate\<close> carries the message
  \<^verbatim>\<open>n must be even for Simpson's rule\<close>. The code raises \<^verbatim>\<open>ValueError\<close> with another
  text, so at \<open>n = 3\<close> the result is not the error with that message.
\<close>

theorem simpson_odd_message_counterexample:
  "fst (SimpsonMethod_integrate 0 1 3 (pure_callable (\<lambda>x. x)) ())
     \<noteq> Inl (ValueError ''n must be even for Simpson's rule'')"
  by (simp add: SimpsonMethod_integrate_def)

text \<open>
  C4, amended: for every odd \<open>n\<close>, any bounds and any integrand,
  \<^verbatim>\<open>SimpsonMethod.integrate\<close> fails with \<^verbatim>\<open>ValueError\<close> whose message is
  \<^verbatim>\<open>For the Simpson method, n must be even\<close>, and returns no value; for every even
  \<open>n\<close> other than 0 (such as \<open>n = 4\<close>) the parity check passes and the call returns a
  value.
\<close>

theorem simpson_parity_check:
  "(odd n \<longrightarrow>
      fst (SimpsonMethod_integrate a b n f s) =
        Inl (ValueError ''For the Simpson method, n must be even''))
   \<and> (even n \<and> n \<noteq> 0 \<longrightarrow> (\<exists>v. fst (SimpsonMethod_integrate a b n f s) = Inr v))"
proof (intro conjI impI)
  assume "odd n"
  then have "n mod 2 \<noteq> 0" by presburger
  then show "fst (SimpsonMethod_integrate a b n f s) =
      Inl (ValueError ''For the Simpson method, n must be even'')"
    by (simp add: SimpsonMethod_integrate_def)
next
  assume "even n \<and> n \<noteq> 0"
  then have "n mod 2 = 0" and "n \<noteq> 0" by presburger+
  then show "\<exists>v. fst (SimpsonMethod_integrate a b n f s) = Inr v"
    by (simp add: SimpsonMethod_integrate_def truediv_def split: prod.splits)
qed

theorem simpson_parity_check_witness:
  "fst (SimpsonMethod_integrate 0 1 3 (pure_callable (\<lambda>x. x)) ()) =
     Inl (ValueError ''For the Simpson method, n must be even'')
   \<and> (\<exists>v. fst (SimpsonMethod_integrate 0 1 4 (pure_callable (\<lambda>x. x)) ()) = Inr v)"
  using simpson_parity_check[where n = 3 and a = 0 and b = 1
      and f = "pure_callable (\<lambda>x. x)" and s = "()"]
    simpson_parity_check[where n = 4 and a = 0 and b = 1
      and f = "pure_callable (\<lambda>x. x)" and s = "()"]
  by simp

text \<open>
  C5. Constructing \<^verbatim>\<open>RectangleMethod(mode)\<close> succeeds, storing the mode, exactly for the
  modes left, right, mid and random; for every other string the constructor itself fails
  (the \<^verbatim>\<open>assert\<close> raises \<^verbatim>\<open>AssertionError\<close>), so no object exists on which
  \<^verbatim>\<open>integrate\<close> could be called.
\<close>

theorem RectangleMethod_init_validates:
  "(m \<in> {''left'', ''right'', ''mid'', ''random''} \<longrightarrow> RectangleMethod_init m = Inr \<lparr>mode = m\<rparr>)
   \<and> (m \<notin> {''left'', ''right'', ''mid'', ''random''} \<longrightarrow> RectangleMethod_init m = Inl AssertionError)"
  by (simp add: RectangleMethod_init_def)

theorem RectangleMethod_init_validates_witness:
  "RectangleMethod_init ''invalid'' = Inl AssertionError
   \<and> RectangleMethod_init ''left'' = Inr \<lparr>mode = ''left''\<rparr>
   \<and> RectangleMethod_init ''right'' = Inr \<lparr>mode = ''right''\<rparr>
   \<and> RectangleMethod_init ''mid'' = Inr \<lparr>mode = ''mid''\<rparr>
   \<and> RectangleMethod_init ''random'' = Inr \<lparr>mode = ''random''\<rparr>"
  using RectangleMethod_init_validates[of "''invalid''"]
    RectangleMethod_init_validates[of "''left''"]
    RectangleMethod_init_validates[of "''right''"]
    RectangleMethod_init_validates[of "''mid''"]
    RectangleMethod_init_validates[of "''random''"]
  by simp

text \<open>
  C7. For \<open>n = 0\<close> each of the three methods, in the rectangle method whatever the mode,
  fails with \<^verbatim>\<open>ZeroDivisionError\<close> from the computation of \<open>dx\<close>: no value is returned and
  the world state is untouched, for every integrand and every sampler.
\<close>

theorem zero_partitions_division_fault:
  "RectangleMethod_integrate uniform self a b 0 f s = (Inl ZeroDivisionError, s)
   \<and> TrapezoidalMethod_integrate a b 0 f s = (Inl ZeroDivisionError, s)
   \<and> SimpsonMethod_integrate a b 0 f s = (Inl ZeroDivisionError, s)"
  by (simp add: RectangleMethod_integrate_def TrapezoidalMethod_integrate_def
      SimpsonMethod_integrate_def truediv_def)

theorem zero_partitions_division_fault_witness:
  "RectangleMethod_integrate (\<lambda>x0 x1 calls. (x0, calls)) \<lparr>mode = ''random''\<rparr> 0 1 0
       (logging_callable (\<lambda>x. x)) [] = (Inl ZeroDivisionError, [])
   \<and> TrapezoidalMethod_integrate 0 1 0 (logging_callable (\<lambda>x. x)) [] = (Inl ZeroDivisionError, [])
   \<and> SimpsonMethod_integrate 0 1 0 (logging_callable (\<lambda>x. x)) [] = (Inl ZeroDivisionError, [])"
  using zero_partitions_division_fault[where uniform = "\<lambda>x0 x1 calls. (x0, calls)"
      and self = "\<lparr>mode = ''random''\<rparr>" and a = 0 and b = 1
      and f = "logging_callable (\<lambda>x. x)" and s = "[]"]
  by simp

text \<open>
  C9. For every odd \<open>n\<close> and all bounds, \<^verbatim>\<open>SimpsonMethod.integrate\<close> raises its error
  before \<open>dx\<close> is computed and before the integrand is evaluated: whatever the integrand
  does to the world state when called, the state comes back unchanged, so the integrand
  was never called.
\<close>

theorem simpson_odd_fails_before_any_call:
  assumes "odd n"
  shows "SimpsonMethod_integrate a b n f s =
           (Inl (ValueError ''For the Simpson method, n must be even''), s)"
proof -
  have "n mod 2 \<noteq> 0" using assms by presburger
  then show ?thesis
    by (simp add: SimpsonMethod_integrate_def)
qed

theorem simpson_odd_fails_before_any_call_witness:
  "odd (3::int)
   \<and> SimpsonMethod_integrate 0 1 3 (logging_callable (\<lambda>x. x)) [] =
       (Inl (ValueError ''For the Simpson method, n must be even''), [])"
  using simpson_odd_fails_before_any_call[where n = 3 and a = 0 and b = 1
      and f = "logging_callable (\<lambda>x. x)" and s = "[]"]
  by simp

section \<open>Relations between runs\<close>

text \<open>
  C6, as stated: for every non-random variant \<^verbatim>\<open>integrate(a, b, n, f)\<close> equals
  \<^verbatim>\<open>-integrate(b, a, n, f)\<close>. In the modes left and right this fails: with \<open>f x = x\<close>,
  \<open>n = 1\<close> the left rule gives 0 on \<open>(0, 1)\<close> and \<open>-1\<close> on \<open>(1, 0)\<close>, and the right rule
  gives 1 on \<open>(0, 1)\<close> and 0 on \<open>(1, 0)\<close>.
\<close>

theorem reversed_bounds_left_right_counterexample:
  "RectangleMethod_integrate (\<lambda>x0 x1 s. (x0, s)) \<lparr>mode = ''left''\<rparr> 0 1 1
       (pure_callable (\<lambda>x. x)) () = (Inr 0, ())
   \<and> RectangleMethod_integrate (\<lambda>x0 x1 s. (x0, s)) \<lparr>mode = ''left''\<rparr> 1 0 1
       (pure_callable (\<lambda>x. x)) () = (Inr (- 1), ())
   \<and> (0::real) \<noteq> - (- 1)
   \<and> RectangleMethod_integrate (\<lambda>x0 x1 s. (x0, s)) \<lparr>mode = ''right''\<rparr> 0 1 1
       (pure_callable (\<lambda>x. x)) () = (Inr 1, ())
   \<and> RectangleMethod_integrate (\<lambda>x0 x1 s. (x0, s)) \<lparr>mode = ''right''\<rparr> 1 0 1
       (pure_callable (\<lambda>x. x)) () = (Inr 0, ())
   \<and> (1::real) \<noteq> - 0"
  by (simp add: RectangleMethod_integrate_def truediv_def pure_callable_def)

text \<open>
  C6, amended: for a pure integrand and \<open>n \<ge> 1\<close>, exchanging the bounds negates the result
  of the rectangle method in mode mid, of the trapezoidal method and (for even \<open>n\<close>) of
  Simpson's method. In the modes left and right the exchange also swaps the two modes:
  the left rule on \<open>(a, b)\<close> is the negated right rule on \<open>(b, a)\<close>.
\<close>

theorem reversed_bounds_negate:
  assumes "1 \<le> n"
  shows "(mode self = ''mid'' \<longrightarrow>
            (\<exists>v. RectangleMethod_integrate uniform self a b n (pure_callable g) s = (Inr v, s)
                \<and> RectangleMethod_integrate uniform self b a n (pure_callable g) s = (Inr (- v), s)))
       \<and> (\<exists>v. TrapezoidalMethod_integrate a b n (pure_callable g) s = (Inr v, s)
              \<and> TrapezoidalMethod_integrate b a n (pure_callable g) s = (Inr (- v), s))
       \<and> (even n \<longrightarrow>
            (\<exists>v. SimpsonMethod_integrate a b n (pure_callable g) s = (Inr v, s)
                \<and> SimpsonMethod_integrate b a n (pure_callable g) s = (Inr (- v), s)))
       \<and> (mode self = ''left'' \<and> mode other = ''right'' \<longrightarrow>
            (\<exists>v. RectangleMethod_integrate uniform self a b n (pure_callable g) s = (Inr v, s)
                \<and> RectangleMethod_integrate uniform other b a n (pure_callable g) s = (Inr (- v), s)))"
proof -
  have n0: "n \<noteq> 0" using assms by simp
  have ev: "n mod 2 = 0" if "even n" using that by presburger
  show ?thesis
  proof (intro conjI impI)
    assume "mode self = ''mid''"
    then show "\<exists>v. RectangleMethod_integrate uniform self a b n (pure_callable g) s = (Inr v, s)
                \<and> RectangleMethod_integrate uniform self b a n (pure_callable g) s = (Inr (- v), s)"
      by (rule rectangle_mid_reversed[OF n0])
  next
    show "\<exists>v. TrapezoidalMethod_integrate a b n (pure_callable g) s = (Inr v, s)
              \<and> TrapezoidalMethod_integrate b a n (pure_callable g) s = (Inr (- v), s)"
      by (rule trapezoidal_reversed[OF n0])
  next
    assume "even n"
    then show "\<exists>v. SimpsonMethod_integrate a b n (pure_callable g) s = (Inr v, s)
                \<and> SimpsonMethod_integrate b a n (pure_callable g) s = (Inr (- v), s)"
      by (intro simpson_reversed[OF n0] ev)
  next
    assume "mode self = ''left'' \<and> mode other = ''right''"
    then have l: "mode self = ''left''" and r: "mode other = ''right''"
      by simp_all
    show "\<exists>v. RectangleMethod_integrate uniform self a b n (pure_callable g) s = (Inr v, s)
                \<and> RectangleMethod_integrate uniform other b a n (pure_callable g) s = (Inr (- v), s)"
      by (rule rectangle_left_right_reversed[OF n0 l r])
  qed
qed

theorem reversed_bounds_negate_witness:
  "(\<exists>v. RectangleMethod_integrate (\<lambda>x0 x1 s. (x0, s)) \<lparr>mode = ''mid''\<rparr> 0 1 2
           (pure_callable (\<lambda>x. x\<^sup>2)) () = (Inr v, ())
       \<and> RectangleMethod_integrate (\<lambda>x0 x1 s. (x0, s)) \<lparr>mode = ''mid''\<rparr> 1 0 2
           (pure_callable (\<lambda>x. x\<^sup>2)) () = (Inr (- v), ()))
   \<and> (\<exists>v. TrapezoidalMethod_integrate 0 1 2 (pure_callable (\<lambda>x. x\<^sup>2)) () = (Inr v, ())
       \<and> TrapezoidalMethod_integrate 1 0 2 (pure_callable (\<lambda>x. x\<^sup>2)) () = (Inr (- v), ()))
   \<and> (\<exists>v. SimpsonMethod_integrate 0 1 2 (pure_callable (\<lambda>x. x\<^sup>2)) () = (Inr v, ())
       \<and> SimpsonMethod_integrate 1 0 2 (pure_callable (\<lambda>x. x\<^sup>2)) () = (Inr (- v), ()))
   \<and> (\<exists>v. RectangleMethod_integrate (\<lambda>x0 x1 s. (x0, s)) \<lparr>mode = ''left''\<rparr> 0 1 2
           (pure_callable (\<lambda>x. x\<^sup>2)) () = (Inr v, ())
       \<and> RectangleMethod_integrate (\<lambda>x0 x1 s. (x0, s)) \<lparr>mode = ''right''\<rparr> 1 0 2
           (pure_callable (\<lambda>x. x\<^sup>2)) () = (Inr (- v), ()))"
  using reversed_bounds_negate[where n = 2 and a = 0 and b = 1 and g = "\<lambda>x. x\<^sup>2" and s = "()"
      and uniform = "\<lambda>x0 x1 s. (x0, s)" and self = "\<lparr>mode = ''mid''\<rparr>"
      and other = "\<lparr>mode = ''right''\<rparr>"]
    reversed_bounds_negate[where n = 2 and a = 0 and b = 1 and g = "\<lambda>x. x\<^sup>2" and s = "()"
      and uniform = "\<lambda>x0 x1 s. (x0, s)" and self = "\<lparr>mode = ''left''\<rparr>"
      and other = "\<lparr>mode = ''right''\<rparr>"]
  by simp

text \<open>
  C8. For every linear integrand \<open>x \<mapsto> p * x + q\<close> and every \<open>n \<ge> 1\<close>,
  \<^verbatim>\<open>TrapezoidalMethod.integrate(a, b, n, f)\<close> returns the exact integral of the integrand
  over \<open>[a, b]\<close>, that is, the difference at \<open>b\<close> and \<open>a\<close> of an antiderivative; for
  \<open>f x = 2 * x + 1\<close>, \<open>a = 0\<close>, \<open>b = 2\<close>, \<open>n = 4\<close> the result is 6.
\<close>

theorem trapezoidal_exact_for_linear:
  assumes "1 \<le> n"
  shows "TrapezoidalMethod_integrate a b n (pure_callable (\<lambda>x. p * x + q)) s =
           (Inr (linear_antiderivative p q b - linear_antiderivative p q a), s)
       \<and> (\<forall>x. (linear_antiderivative p q has_real_derivative p * x + q) (at x))"
proof -
  have n0: "n \<noteq> 0" using assms by simp
  show ?thesis
    unfolding TrapezoidalMethod_pure[OF n0] trapezoidal_linear[OF assms]
    by (simp add: linear_antiderivative_deriv) (simp add: linear_antiderivative_def)
qed

theorem trapezoidal_exact_for_linear_witness:
  "TrapezoidalMethod_integrate 0 2 4 (pure_callable (\<lambda>x. 2 * x + 1)) () = (Inr 6, ())"
  using trapezoidal_exact_for_linear[where n = 4 and a = 0 and b = 2 and p = 2 and q = 1
      and s = "()"]
  by (simp add: linear_antiderivative_def)

section \<open>Binary64: rounding, conversion and closed forms\<close>

lemma bit_length_pos: "0 < m \<Longrightarrow> 1 \<le> bit_length m"
proof -
  assume "0 < m"
  then have "bit_length m = 1 + bit_length (m div 2)"
    by (subst bit_length.simps) simp
  moreover have "0 \<le> bit_length k" for k
    by (induction k rule: bit_length.induct) (subst bit_length.simps, simp)
  ultimately show ?thesis
    by (metis add.commute le_add_same_cancel2)
qed

lemma bit_length_lower: "0 < m \<Longrightarrow> 2 ^ nat (bit_length m - 1) \<le> m"
proof (induction m rule: bit_length.induct)
  case (1 m)
  have bl: "bit_length m = 1 + bit_length (m div 2)"
    using "1.prems" by (subst bit_length.simps) simp
  show ?case
  proof (cases "m = 1")
    case True
    then show ?thesis
      unfolding bl by (simp add: bit_length.simps)
  next
    case False
    then have h: "0 < m div 2" using "1.prems" by simp
    have ih: "2 ^ nat (bit_length (m div 2) - 1) \<le> m div 2"
      using "1.IH" "1.prems" h by simp
    have p: "1 \<le> bit_length (m div 2)"
      by (rule bit_length_pos[OF h])
    then have "nat (bit_length (m div 2)) = Suc (nat (bit_length (m div 2) - 1))"
      by simp
    then have "(2::int) ^ nat (bit_length (m div 2)) = 2 * 2 ^ nat (bit_length (m div 2) - 1)"
      by simp
    also have "\<dots> \<le> 2 * (m div 2)"
      using ih by simp
    also have "\<dots> \<le> m"
      by simp
    finally show ?thesis
      unfolding bl by simp
  qed
qed

lemma round_half_even_lower: "M div 2 ^ nat k \<le> round_half_even M k"
  by (simp add: round_half_even_def Let_def)

lemma f64_round_cases:
  "f64_round s M E = Infinity s \<or> (\<exists>m e. f64_round s M E = Finite s m e)"
  by (simp add: f64_round_def Let_def)

lemma f64_round_nonzero:
  assumes "0 < M"
  shows "\<not> is_zero (f64_round s M 0)"
proof -
  define e where "e = max (0 + bit_length M - 53) (- 1074)"
  define m where "m = (if e \<le> 0 then M * 2 ^ nat (0 - e) else round_half_even M (e - 0))"
  have "m \<noteq> 0"
  proof (cases "e \<le> 0")
    case True
    then show ?thesis using assms by (simp add: m_def)
  next
    case False
    then have e: "e = bit_length M - 53" and "0 < e"
      by (simp_all add: e_def max_def split: if_splits)
    then have "nat e \<le> nat (bit_length M - 1)" by simp
    then have "(2::int) ^ nat e \<le> 2 ^ nat (bit_length M - 1)"
      by (rule power_increasing) simp
    also have "\<dots> \<le> M" by (rule bit_length_lower[OF assms])
    finally have "2 ^ nat e \<le> M" .
    then have "0 < M div 2 ^ nat e"
      by (simp add: pos_imp_zdiv_pos_iff)
    then have "1 \<le> M div 2 ^ nat e"
      by simp
    also have "\<dots> \<le> round_half_even M e" by (rule round_half_even_lower)
    finally show ?thesis using False by (simp add: m_def)
  qed
  moreover have "f64_round s M 0 =
      (if m = 2 ^ 53 then (if 971 < e + 1 then Infinity s else Finite s (2 ^ 52) (e + 1))
       else if 971 < e then Infinity s else Finite s m e)"
    unfolding f64_round_def Let_def e_def m_def using assms by simp
  ultimately show ?thesis
    by simp
qed

lemma to_f64_nonzero: "n \<noteq> 0 \<Longrightarrow> \<not> is_zero (to_f64 n)"
  unfolding to_f64_def by (rule f64_round_nonzero) simp

lemma to_f64_cases:
  "to_f64 n = Infinity (n < 0) \<or> (\<exists>m e. to_f64 n = Finite (n < 0) m e)"
  unfolding to_f64_def by (rule f64_round_cases)

lemma truediv_f64_ok:
  assumes "n \<noteq> 0" and "\<bar>n\<bar> < 2 ^ 1024 - 2 ^ 970"
  shows "truediv_f64 x n = Inr (f64_div x (to_f64 n))"
  using assms to_f64_nonzero[OF assms(1)] by (simp add: truediv_f64_def float_of_int_def)

lemma rectangle_loop_f64_pure:
  assumes "m = ''left'' \<or> m = ''right'' \<or> m = ''mid''"
  shows "rectangle_loop_f64 uniform m (pure_callable_f64 g) a dx xs tot s =
           (foldl (\<lambda>t i. f64_add t (f64_mul (g (evaluation_point_f64 m a dx i)) dx)) tot xs, s)"
  using assms
  by (induction xs arbitrary: tot)
     (auto simp: pure_callable_f64_def evaluation_point_f64_def Let_def)

lemma trapezoidal_loop_f64_pure:
  "trapezoidal_loop_f64 (pure_callable_f64 g) a dx xs tot s =
     (foldl (\<lambda>t i. f64_add t (g (f64_add a (f64_mul (to_f64 i) dx)))) tot xs, s)"
  by (induction xs arbitrary: tot) (simp_all add: pure_callable_f64_def)

lemma simpson_loop_f64_pure:
  "simpson_loop_f64 (pure_callable_f64 g) a dx xs tot s =
     (foldl (\<lambda>t i. f64_add t (f64_mul (to_f64 (if i mod 2 \<noteq> 0 then 4 else 2))
                                      (g (f64_add a (f64_mul (to_f64 i) dx))))) tot xs, s)"
  by (induction xs arbitrary: tot) (simp_all add: pure_callable_f64_def)

lemma truediv_f64_float_of_int:
  assumes "n \<noteq> 0" and "float_of_int n = Inr nf"
  shows "truediv_f64 x n = Inr (f64_div x nf)"
proof -
  have "nf = to_f64 n"
    using assms(2) by (simp add: float_of_int_def split: if_splits)
  then show ?thesis
    using assms(2) to_f64_nonzero[OF assms(1)] by (simp add: truediv_f64_def)
qed

lemma RectangleMethod_f64_pure:
  assumes "n \<noteq> 0" and "float_of_int n = Inr nf"
    and "mode self = ''left'' \<or> mode self = ''right'' \<or> mode self = ''mid''"
  shows "RectangleMethod_integrate_f64 uniform self a b n (pure_callable_f64 g) s =
           (Inr (foldl (\<lambda>t i. f64_add t (f64_mul (g (evaluation_point_f64 (mode self) a
                                                     (f64_div (f64_sub b a) nf) i))
                                                (f64_div (f64_sub b a) nf)))
                   f64_zero [0..n - 1]), s)"
  by (simp add: RectangleMethod_integrate_f64_def truediv_f64_float_of_int[OF assms(1,2)]
      rectangle_loop_f64_pure[OF assms(3)])

lemma TrapezoidalMethod_f64_pure:
  assumes "n \<noteq> 0" and "float_of_int n = Inr nf"
  shows "TrapezoidalMethod_integrate_f64 a b n (pure_callable_f64 g) s =
           (Inr (f64_mul
                   (foldl (\<lambda>t i. f64_add t (g (f64_add a (f64_mul (to_f64 i) (f64_div (f64_sub b a) nf)))))
                      (f64_mul f64_half (f64_add (g a) (g b))) [1..n - 1])
                   (f64_div (f64_sub b a) nf)), s)"
  by (simp add: TrapezoidalMethod_integrate_f64_def truediv_f64_float_of_int[OF assms]
      trapezoidal_loop_f64_pure pure_callable_f64_def)

lemma SimpsonMethod_f64_pure:
  assumes "n \<noteq> 0" and "float_of_int n = Inr nf" and "n mod 2 = 0"
  shows "SimpsonMethod_integrate_f64 a b n (pure_callable_f64 g) s =
           (Inr (f64_div
                   (f64_mul
                      (foldl (\<lambda>t i. f64_add t (f64_mul (to_f64 (if i mod 2 \<noteq> 0 then 4 else 2))
                                 (g (f64_add a (f64_mul (to_f64 i) (f64_div (f64_sub b a) nf))))))
                         (f64_add (g a) (g b)) [1..n - 1])
                      (f64_div (f64_sub b a) nf))
                   (to_f64 3)), s)"
  by (simp add: SimpsonMethod_integrate_f64_def truediv_f64_float_of_int[OF assms(1,2)] assms(3)
      simpson_loop_f64_pure pure_callable_f64_def)

text \<open>Equal bounds: the step is \<open>+0.0\<close>.\<close>

lemma f64_sub_self: "is_finite a \<Longrightarrow> f64_sub a a = f64_zero"
  by (cases a) (simp_all add: f64_sub_def f64_add.simps(1) f64_zero_def)

lemma f64_div_zero_float_of_int:
  assumes "n \<noteq> 0" and "float_of_int n = Inr nf"
  shows "f64_div f64_zero nf = Finite (n < 0) 0 (- 1074)"
proof -
  have nf: "nf = to_f64 n"
    using assms(2) by (simp add: float_of_int_def split: if_splits)
  from to_f64_cases[of n] show ?thesis
  proof
    assume "to_f64 n = Infinity (n < 0)"
    then show ?thesis by (simp add: nf f64_zero_def)
  next
    assume "\<exists>m e. to_f64 n = Finite (n < 0) m e"
    then obtain m e where "to_f64 n = Finite (n < 0) m e" by blast
    then show ?thesis
      by (simp add: nf f64_zero_def f64_div.simps(1) f64_round_def)
  qed
qed

lemma f64_mul_finite_zero:
  "is_finite y \<Longrightarrow> \<exists>sg. f64_mul y f64_zero = Finite sg 0 (- 1074)"
  by (cases y) (simp_all add: f64_zero_def f64_mul.simps(1) f64_round_def)

lemma f64_mul_nonfinite_zero:
  "\<not> is_finite y \<Longrightarrow> f64_mul y f64_zero = NaN"
  by (cases y) (simp_all add: f64_zero_def)

lemma f64_add_zero_zero: "f64_add f64_zero (Finite sg 0 (- 1074)) = f64_zero"
  by (simp add: f64_zero_def f64_add.simps(1))

lemma rectangle_fold_zero:
  assumes "\<forall>i\<in>set xs. is_finite (g (p i))"
  shows "foldl (\<lambda>t i. f64_add t (f64_mul (g (p i)) f64_zero)) f64_zero xs = f64_zero"
  using assms
proof (induction xs)
  case Nil
  show ?case by simp
next
  case (Cons i xs)
  then obtain sg where "f64_mul (g (p i)) f64_zero = Finite sg 0 (- 1074)"
    using f64_mul_finite_zero[of "g (p i)"] by auto
  then show ?case
    using Cons by (simp add: f64_add_zero_zero)
qed

lemma to_f64_3: "to_f64 3 = Finite False 6755399441055744 (- 51)"
  by code_simp

lemma f64_div_zero_3: "f64_div (Finite sg 0 (- 1074)) (to_f64 3) = Finite sg 0 (- 1074)"
  by (simp add: to_f64_3 f64_div.simps(1) f64_round_def)

section \<open>Binary64: the rectangle sums and equal bounds\<close>

text \<open>
  C1, amended: for a pure integrand \<open>g\<close>, a partition count \<open>n \<ge> 1\<close> that converts to a
  float and the step \<open>dx = (b - a) / n\<close>, \<^verbatim>\<open>RectangleMethod(mode).integrate(a, b, n, g)\<close>
  returns the sum, accumulated from \<open>0.0\<close> in the order of the indices \<open>i = 0, \<dots>, n - 1\<close>,
  of \<open>g xi * dx\<close>, where the \<open>i\<close>-th subinterval is \<open>[x0, x1]\<close> with \<open>x0 = a + i * dx\<close> and
  \<open>x1 = x0 + dx\<close>, and \<open>xi\<close> is \<open>x0\<close> in mode left, \<open>x1\<close> in mode right and
  \<open>(x0 + x1) / 2\<close> in mode mid; every operation is the binary64 one.
\<close>

theorem rectangle_integrate_sum_f64:
  assumes "1 \<le> n" and "float_of_int n = Inr nf" and "dx = f64_div (f64_sub b a) nf"
  shows "(mode self = ''left'' \<longrightarrow>
            RectangleMethod_integrate_f64 uniform self a b n (pure_callable_f64 g) s =
              (Inr (foldl (\<lambda>tot i.
                       let x0 = f64_add a (f64_mul (to_f64 i) dx)
                       in f64_add tot (f64_mul (g x0) dx))
                     f64_zero [0..n - 1]), s))
       \<and> (mode self = ''right'' \<longrightarrow>
            RectangleMethod_integrate_f64 uniform self a b n (pure_callable_f64 g) s =
              (Inr (foldl (\<lambda>tot i.
                       let x0 = f64_add a (f64_mul (to_f64 i) dx);
                           x1 = f64_add x0 dx
                       in f64_add tot (f64_mul (g x1) dx))
                     f64_zero [0..n - 1]), s))
       \<and> (mode self = ''mid'' \<longrightarrow>
            RectangleMethod_integrate_f64 uniform self a b n (pure_callable_f64 g) s =
              (Inr (foldl (\<lambda>tot i.
                       let x0 = f64_add a (f64_mul (to_f64 i) dx);
                           x1 = f64_add x0 dx
                       in f64_add tot (f64_mul (g (f64_div (f64_add x0 x1) (to_f64 2))) dx))
                     f64_zero [0..n - 1]), s))"
proof -
  have n0: "n \<noteq> 0" using assms(1) by simp
  show ?thesis
    unfolding assms(3)
    by (simp add: RectangleMethod_f64_pure[OF n0 assms(2)] evaluation_point_f64_def Let_def)
qed

text \<open>
  C10, amended: with equal finite bounds \<open>a = b\<close>, a pure integrand and \<open>n \<ge> 1\<close> that
  converts to a float (even for Simpson), the rectangle method in the modes left, right
  and mid returns \<open>0.0\<close> when the integrand is finite at the evaluation points; the
  trapezoidal method and Simpson's method return a zero when the total accumulated before
  the final scaling is finite, and NaN when it is not.
\<close>

theorem equal_bounds_zero_f64:
  assumes "1 \<le> n" and "float_of_int n = Inr nf" and "is_finite a"
  shows "((mode self = ''left'' \<or> mode self = ''right'' \<or> mode self = ''mid'')
          \<and> (\<forall>i\<in>set [0..n - 1]. is_finite (g (evaluation_point_f64 (mode self) a f64_zero i))) \<longrightarrow>
            RectangleMethod_integrate_f64 uniform self a a n (pure_callable_f64 g) s =
              (Inr f64_zero, s))
       \<and> (\<exists>tot. trapezoidal_loop_f64 (pure_callable_f64 g) a f64_zero [1..n - 1]
                    (f64_mul f64_half (f64_add (g a) (g a))) s = (tot, s)
              \<and> (is_finite tot \<longrightarrow>
                    (\<exists>z. is_zero z \<and>
                       TrapezoidalMethod_integrate_f64 a a n (pure_callable_f64 g) s = (Inr z, s)))
              \<and> (\<not> is_finite tot \<longrightarrow>
                    TrapezoidalMethod_integrate_f64 a a n (pure_callable_f64 g) s = (Inr NaN, s)))
       \<and> (even n \<longrightarrow>
            (\<exists>tot. simpson_loop_f64 (pure_callable_f64 g) a f64_zero [1..n - 1]
                      (f64_add (g a) (g a)) s = (tot, s)
              \<and> (is_finite tot \<longrightarrow>
                    (\<exists>z. is_zero z \<and>
                       SimpsonMethod_integrate_f64 a a n (pure_callable_f64 g) s = (Inr z, s)))
              \<and> (\<not> is_finite tot \<longrightarrow>
                    SimpsonMethod_integrate_f64 a a n (pure_callable_f64 g) s = (Inr NaN, s))))"
proof -
  have n0: "n \<noteq> 0" and pos: "\<not> n < 0" using assms(1) by simp_all
  have dx: "f64_div (f64_sub a a) nf = f64_zero"
    using f64_div_zero_float_of_int[OF n0 assms(2)] pos
    by (simp add: f64_sub_self[OF assms(3)] f64_zero_def)
  have rect: "RectangleMethod_integrate_f64 uniform self a a n (pure_callable_f64 g) s =
                (Inr f64_zero, s)"
    if m: "mode self = ''left'' \<or> mode self = ''right'' \<or> mode self = ''mid''"
      and fin: "\<forall>i\<in>set [0..n - 1]. is_finite (g (evaluation_point_f64 (mode self) a f64_zero i))"
    unfolding RectangleMethod_f64_pure[OF n0 assms(2) m] dx
    using rectangle_fold_zero[where g = g and p = "evaluation_point_f64 (mode self) a f64_zero"
        and xs = "[0..n - 1]"] fin
    by simp
  define tt where
    "tt = foldl (\<lambda>t i. f64_add t (g (f64_add a (f64_mul (to_f64 i) f64_zero))))
            (f64_mul f64_half (f64_add (g a) (g a))) [1..n - 1]"
  have tloop: "trapezoidal_loop_f64 (pure_callable_f64 g) a f64_zero [1..n - 1]
                 (f64_mul f64_half (f64_add (g a) (g a))) s = (tt, s)"
    unfolding tt_def by (rule trapezoidal_loop_f64_pure)
  have tres: "TrapezoidalMethod_integrate_f64 a a n (pure_callable_f64 g) s =
                (Inr (f64_mul tt f64_zero), s)"
    unfolding TrapezoidalMethod_f64_pure[OF n0 assms(2)] dx tt_def ..
  have trap: "\<exists>tot. trapezoidal_loop_f64 (pure_callable_f64 g) a f64_zero [1..n - 1]
                    (f64_mul f64_half (f64_add (g a) (g a))) s = (tot, s)
              \<and> (is_finite tot \<longrightarrow>
                    (\<exists>z. is_zero z \<and>
                       TrapezoidalMethod_integrate_f64 a a n (pure_callable_f64 g) s = (Inr z, s)))
              \<and> (\<not> is_finite tot \<longrightarrow>
                    TrapezoidalMethod_integrate_f64 a a n (pure_callable_f64 g) s = (Inr NaN, s))"
  proof (rule exI[of _ tt], intro conjI impI)
    show "trapezoidal_loop_f64 (pure_callable_f64 g) a f64_zero [1..n - 1]
            (f64_mul f64_half (f64_add (g a) (g a))) s = (tt, s)"
      by (rule tloop)
  next
    assume "is_finite tt"
    then obtain sg where "f64_mul tt f64_zero = Finite sg 0 (- 1074)"
      using f64_mul_finite_zero by blast
    then show "\<exists>z. is_zero z \<and>
        TrapezoidalMethod_integrate_f64 a a n (pure_callable_f64 g) s = (Inr z, s)"
      unfolding tres by simp
  next
    assume "\<not> is_finite tt"
    then show "TrapezoidalMethod_integrate_f64 a a n (pure_callable_f64 g) s = (Inr NaN, s)"
      unfolding tres by (simp add: f64_mul_nonfinite_zero)
  qed
  define st where
    "st = foldl (\<lambda>t i. f64_add t (f64_mul (to_f64 (if i mod 2 \<noteq> 0 then 4 else 2))
                   (g (f64_add a (f64_mul (to_f64 i) f64_zero)))))
            (f64_add (g a) (g a)) [1..n - 1]"
  have sloop: "simpson_loop_f64 (pure_callable_f64 g) a f64_zero [1..n - 1]
                 (f64_add (g a) (g a)) s = (st, s)"
    unfolding st_def by (rule simpson_loop_f64_pure)
  have simpson: "\<exists>tot. simpson_loop_f64 (pure_callable_f64 g) a f64_zero [1..n - 1]
                      (f64_add (g a) (g a)) s = (tot, s)
              \<and> (is_finite tot \<longrightarrow>
                    (\<exists>z. is_zero z \<and>
                       SimpsonMethod_integrate_f64 a a n (pure_callable_f64 g) s = (Inr z, s)))
              \<and> (\<not> is_finite tot \<longrightarrow>
                    SimpsonMethod_integrate_f64 a a n (pure_callable_f64 g) s = (Inr NaN, s))"
    if "even n"
  proof -
    have ev: "n mod 2 = 0" using that by presburger
    have sres: "SimpsonMethod_integrate_f64 a a n (pure_callable_f64 g) s =
                  (Inr (f64_div (f64_mul st f64_zero) (to_f64 3)), s)"
      unfolding SimpsonMethod_f64_pure[OF n0 assms(2) ev] dx st_def ..
    show ?thesis
    proof (rule exI[of _ st], intro conjI impI)
      show "simpson_loop_f64 (pure_callable_f64 g) a f64_zero [1..n - 1]
              (f64_add (g a) (g a)) s = (st, s)"
        by (rule sloop)
    next
      assume "is_finite st"
      then obtain sg where "f64_mul st f64_zero = Finite sg 0 (- 1074)"
        using f64_mul_finite_zero by blast
      then show "\<exists>z. is_zero z \<and>
          SimpsonMethod_integrate_f64 a a n (pure_callable_f64 g) s = (Inr z, s)"
        unfolding sres by (simp add: f64_div_zero_3)
    next
      assume "\<not> is_finite st"
      then show "SimpsonMethod_integrate_f64 a a n (pure_callable_f64 g) s = (Inr NaN, s)"
        unfolding sres by (simp add: f64_mul_nonfinite_zero to_f64_3)
    qed
  qed
  show ?thesis
    using rect trap simpson by blast
qed

end
